theory Spec2Isabelle
  imports Main "HOL-Library.Multiset"
begin

section \<open>Values exchanged with the trace files and the checking engine\<close>

text \<open>
  A trace file is JSON. A number literal is kept as written: \<open>JInt i\<close> for a literal in
  plain integer form, of value \<open>i\<close>, and \<open>JFrac m e\<close> for one with a fraction or an
  exponent, of value \<open>m\<close> times ten to the power \<open>e\<close> (the only things the verifier ever
  asks of a number are whether it fits an \<open>int64\<close> field and whether it fits a
  \<open>float64\<close>). The members of an object are kept in an association list.

  Go decodes JSON into \<open>interface{}\<close> as nil, bool, float64, string, \<open>[]interface{}\<close> or
  \<open>map[string]interface{}\<close>; the same datatype stands for these decoded values, with
  \<open>JNull\<close> for the nil interface.
\<close>

datatype jnumber = JInt int | JFrac int int

datatype jvalue =
    JNull
  | JBool bool
  | JNum jnumber
  | JString string
  | JArray "jvalue list"
  | JObject "(string \<times> jvalue) list"

text \<open>
  \<open>map[string]interface{}\<close>: the entries in the order they were set, a later one
  replacing an earlier one of the same key.
\<close>

type_synonym gomap = "(string \<times> jvalue) list"

text \<open>\<open>m[k]\<close> on a \<open>map[string]interface{}\<close>: the nil interface when the key is absent.\<close>

definition mapIndex :: "gomap \<Rightarrow> string \<Rightarrow> jvalue" where
  "mapIndex m k = (case map_of (rev m) k of None \<Rightarrow> JNull | Some v \<Rightarrow> v)"

text \<open>The two-result type assertion \<open>v.(string)\<close>: \<open>None\<close> stands for \<open>ok = false\<close>.\<close>

fun assertString :: "jvalue \<Rightarrow> string option" where
  "assertString (JString s) = Some s"
| "assertString _ = None"

text \<open>
  The values the engine hands to \<open>Step\<close> and \<open>Partition\<close> are of type \<open>interface{}\<close>.
  Only two dynamic types pass the single-result assertions of the code; every other
  dynamic value (the nil interface included) is \<open>Other\<close>.
\<close>

type_synonym kvstate = "string \<rightharpoonup> string"

datatype goval =
    MapSS kvstate
  | MapSI gomap
  | Other

datatype gopanic = TypeAssertionPanic | IndexOutOfRangePanic

section \<open>The key-value model\<close>

text \<open>
  The handlers update the map they are given and return it; the model returns the
  updated map.
\<close>

definition handlePut :: "kvstate \<Rightarrow> gomap \<Rightarrow> bool \<times> kvstate" where
  "handlePut st inp =
     (case (assertString (mapIndex inp ''key''), assertString (mapIndex inp ''value'')) of
        (Some key, Some val) \<Rightarrow> (True, st(key \<mapsto> val))
      | _ \<Rightarrow> (False, st))"

definition handleGet :: "kvstate \<Rightarrow> gomap \<Rightarrow> gomap \<Rightarrow> bool \<times> kvstate" where
  "handleGet st inp out =
     (case assertString (mapIndex inp ''key'') of
        None \<Rightarrow> (False, st)
      | Some key \<Rightarrow>
          (case assertString (mapIndex out ''status'') of
             None \<Rightarrow> (False, st)
           | Some outStatus \<Rightarrow>
               if outStatus \<noteq> ''ok'' then (False, st)
               else
                 (let outValue = mapIndex out ''value'' in
                  case st key of
                    None \<Rightarrow> (outValue = JNull, st)
                  | Some expectedValue \<Rightarrow>
                      if outValue = JNull then (False, st)
                      else
                        (case assertString outValue of
                           None \<Rightarrow> (False, st)
                         | Some outValueStr \<Rightarrow> (outValueStr = expectedValue, st)))))"

definition handleDelete :: "kvstate \<Rightarrow> gomap \<Rightarrow> bool \<times> kvstate" where
  "handleDelete st inp =
     (case assertString (mapIndex inp ''key'') of
        None \<Rightarrow> (False, st)
      | Some key \<Rightarrow> (True, st(key := None)))"

definition Init :: goval where
  "Init = MapSS Map.empty"

text \<open>The body of \<open>Step\<close> after its three type assertions.\<close>

definition stepMaps :: "kvstate \<Rightarrow> gomap \<Rightarrow> gomap \<Rightarrow> bool \<times> kvstate" where
  "stepMaps st inp out =
     (case assertString (mapIndex inp ''type'') of
        None \<Rightarrow> (False, st)
      | Some opType \<Rightarrow>
          if opType = ''Put'' then handlePut st inp
          else if opType = ''Get'' then handleGet st inp out
          else if opType = ''Delete'' then handleDelete st inp
          else (False, st))"

text \<open>
  \<open>state.(map[string]string)\<close>, \<open>input.(map[string]interface{})\<close> and
  \<open>output.(map[string]interface{})\<close> are single-result assertions: each panics on a
  value of another dynamic type.
\<close>

fun Step :: "goval \<Rightarrow> goval \<Rightarrow> goval \<Rightarrow> gopanic + (bool \<times> goval)" where
  "Step (MapSS st) (MapSI inp) (MapSI out) =
     (case stepMaps st inp out of (legal, st') \<Rightarrow> Inr (legal, MapSS st'))"
| "Step _ _ _ = Inl TypeAssertionPanic"

text \<open>
  Replaying a sequence of operations in the given order, as the engine does along one
  candidate order: the state returned by one step is the state of the next, and the
  replay stops at the first illegal operation.
\<close>

fun replay :: "goval \<Rightarrow> (goval \<times> goval) list \<Rightarrow> gopanic + (bool \<times> goval)" where
  "replay s [] = Inr (True, s)"
| "replay s ((i, out) # ops) =
     (case Step s i out of
        Inl p \<Rightarrow> Inl p
      | Inr (legal, s') \<Rightarrow> if legal then replay s' ops else Inr (False, s'))"

subsection \<open>The operations of the specification\<close>

definition isPut :: "gomap \<Rightarrow> string \<Rightarrow> string \<Rightarrow> bool" where
  "isPut inp k v \<longleftrightarrow>
     mapIndex inp ''type'' = JString ''Put'' \<and> mapIndex inp ''key'' = JString k \<and>
     mapIndex inp ''value'' = JString v"

definition isGet :: "gomap \<Rightarrow> string \<Rightarrow> bool" where
  "isGet inp k \<longleftrightarrow> mapIndex inp ''type'' = JString ''Get'' \<and> mapIndex inp ''key'' = JString k"

definition isDelete :: "gomap \<Rightarrow> string \<Rightarrow> bool" where
  "isDelete inp k \<longleftrightarrow>
     mapIndex inp ''type'' = JString ''Delete'' \<and> mapIndex inp ''key'' = JString k"

text \<open>
  A well-formed Put or Delete, and the effect on the state that the specification gives
  to it.
\<close>

definition putOrDelete :: "gomap \<Rightarrow> bool" where
  "putOrDelete inp \<longleftrightarrow>
     assertString (mapIndex inp ''key'') \<noteq> None \<and>
     (mapIndex inp ''type'' = JString ''Put'' \<and> assertString (mapIndex inp ''value'') \<noteq> None \<or>
      mapIndex inp ''type'' = JString ''Delete'')"

definition effect :: "gomap \<Rightarrow> kvstate \<Rightarrow> kvstate" where
  "effect inp st =
     (case assertString (mapIndex inp ''key'') of
        None \<Rightarrow> st
      | Some k \<Rightarrow>
          if mapIndex inp ''type'' = JString ''Put'' then
            (case assertString (mapIndex inp ''value'') of None \<Rightarrow> st | Some v \<Rightarrow> st(k \<mapsto> v))
          else if mapIndex inp ''type'' = JString ''Delete'' then st(k := None)
          else st)"

text \<open>
  The shape the specification expects of an operation of each kind: a string \<open>type\<close>
  among the three kinds, a string \<open>key\<close>, a string \<open>value\<close> for Put, and for Get an
  output whose \<open>status\<close> is a string and whose \<open>value\<close> is absent, null or a string.
\<close>

definition wellShaped :: "gomap \<Rightarrow> gomap \<Rightarrow> bool" where
  "wellShaped inp out \<longleftrightarrow>
     (case assertString (mapIndex inp ''type'') of
        None \<Rightarrow> False
      | Some t \<Rightarrow>
          assertString (mapIndex inp ''key'') \<noteq> None \<and>
          (if t = ''Put'' then assertString (mapIndex inp ''value'') \<noteq> None
           else if t = ''Get'' then
             assertString (mapIndex out ''status'') \<noteq> None \<and>
             (mapIndex out ''value'' = JNull \<or> assertString (mapIndex out ''value'') \<noteq> None)
           else t = ''Delete''))"

section \<open>Trace records and their conversion\<close>

record Operation =
  ClientID :: int
  Input :: gomap
  Call :: int
  Output :: gomap
  ReturnTime :: int

text \<open>\<open>porcupine.Operation\<close>: its \<open>Input\<close> and \<open>Output\<close> are of type \<open>interface{}\<close>.\<close>

record porcupine_Operation =
  p_ClientId :: int
  p_Input :: goval
  p_Call :: int
  p_Output :: goval
  p_Return :: int

definition convertToPorcupineOperations :: "Operation list \<Rightarrow> porcupine_Operation list" where
  "convertToPorcupineOperations ops =
     map (\<lambda>op. \<lparr>p_ClientId = ClientID op, p_Input = MapSI (Input op), p_Call = Call op,
                 p_Output = MapSI (Output op), p_Return = ReturnTime op\<rparr>) ops"

section \<open>Partitioning by key\<close>

text \<open>
  The first loop of \<open>partitionByKey\<close>: \<open>partitions[key] = append(partitions[key], op)\<close>,
  where the key of an operation without a string \<open>key\<close> is \<open>"__unknown__"\<close>. The
  single-result assertion on \<open>op.Input\<close> panics on a value that is not a map.
\<close>

definition bucketKey :: "gomap \<Rightarrow> string" where
  "bucketKey inp =
     (case assertString (mapIndex inp ''key'') of Some key \<Rightarrow> key | None \<Rightarrow> ''__unknown__'')"

fun collect ::
  "porcupine_Operation list \<Rightarrow> (string \<rightharpoonup> porcupine_Operation list) \<Rightarrow>
   gopanic + (string \<rightharpoonup> porcupine_Operation list)" where
  "collect [] partitions = Inr partitions"
| "collect (op # history) partitions =
     (case p_Input op of
        MapSI inp \<Rightarrow>
          (let key = bucketKey inp in
           collect history
             (partitions(key \<mapsto> (case partitions key of None \<Rightarrow> [] | Some ops \<Rightarrow> ops) @ [op])))
      | _ \<Rightarrow> Inl TypeAssertionPanic)"

text \<open>
  The second loop ranges over the map. Go visits every key of the map once, in an order
  it does not specify: \<open>ks\<close> is the order of that visit.
\<close>

definition rangeOrder :: "(string \<rightharpoonup> 'v) \<Rightarrow> string list \<Rightarrow> bool" where
  "rangeOrder m ks \<longleftrightarrow> distinct ks \<and> set ks = dom m"

definition partitionByKey ::
  "string list \<Rightarrow> porcupine_Operation list \<Rightarrow> gopanic + porcupine_Operation list list" where
  "partitionByKey ks history =
     (case collect history Map.empty of
        Inl p \<Rightarrow> Inl p
      | Inr partitions \<Rightarrow> Inr (List.map_filter partitions ks))"

definition visitOrder :: "porcupine_Operation list \<Rightarrow> string list \<Rightarrow> bool" where
  "visitOrder history ks =
     (case collect history Map.empty of Inl p \<Rightarrow> True | Inr partitions \<Rightarrow> rangeOrder partitions ks)"

text \<open>The key under which an operation is filed, for an input of any dynamic type.\<close>

definition keyOf :: "porcupine_Operation \<Rightarrow> string" where
  "keyOf op = (case p_Input op of MapSI inp \<Rightarrow> bucketKey inp | _ \<Rightarrow> ''__unknown__'')"

definition inputIsMap :: "porcupine_Operation \<Rightarrow> bool" where
  "inputIsMap op = (case p_Input op of MapSI _ \<Rightarrow> True | _ \<Rightarrow> False)"

definition keyless :: "porcupine_Operation \<Rightarrow> bool" where
  "keyless op = (case p_Input op of MapSI inp \<Rightarrow> assertString (mapIndex inp ''key'') = None | _ \<Rightarrow> False)"

text \<open>The key of an operation whose input has a string \<open>key\<close>.\<close>

definition stringKey :: "porcupine_Operation \<Rightarrow> string option" where
  "stringKey op = (case p_Input op of MapSI inp \<Rightarrow> assertString (mapIndex inp ''key'') | _ \<Rightarrow> None)"

section \<open>Loading a history\<close>

text \<open>
  A file that can be read holds either bytes that the scanner of \<open>encoding/json\<close> refuses
  (they are not one JSON text, or they nest deeper than the scanner allows) or a JSON
  value. \<open>os.ReadFile\<close> is the file system: \<open>Inl\<close> carries the message of its error.
\<close>

datatype filedata = NotJSON | JSON jvalue

type_synonym filesystem = "string \<Rightarrow> string + filedata"

datatype goerror = Error string

fun errorText :: "goerror \<Rightarrow> string" where
  "errorText (Error m) = m"

text \<open>
  \<open>json.Unmarshal(data, &ops)\<close> for \<open>ops []Operation\<close>, after the rules of the
  \<open>encoding/json\<close> package. A value of the wrong JSON type for its target is an error;
  \<open>null\<close> leaves an integer as it is and sets a map or a slice to nil; an object member
  that names no field is skipped; a field is found by its name, letter case ignored; an
  integer field takes an integer literal in the range of \<open>int64\<close>; a map that exists
  keeps its entries and takes the members in their order. A nil map is an empty one here:
  these maps are only read.

  The values of a map are decoded into \<open>interface{}\<close>, where every number, at any depth,
  becomes a \<open>float64\<close> through \<open>strconv.ParseFloat\<close>: a literal that rounds to an
  infinity is an error. The literals that round to a finite \<open>float64\<close> are those of
  magnitude below the largest \<open>float64\<close> plus half the distance to the next power of two.
\<close>

definition float64Bound :: int where
  "float64Bound = 2 ^ 1024 - 2 ^ 970"

fun fitsFloat64 :: "jnumber \<Rightarrow> bool" where
  "fitsFloat64 (JInt i) \<longleftrightarrow> \<bar>i\<bar> < float64Bound"
| "fitsFloat64 (JFrac m e) \<longleftrightarrow>
     (if 0 \<le> e then \<bar>m\<bar> * 10 ^ nat e < float64Bound
      else \<bar>m\<bar> < float64Bound * 10 ^ nat (- e))"

fun numbersFit :: "jvalue \<Rightarrow> bool" where
  "numbersFit (JNum n) = fitsFloat64 n"
| "numbersFit (JArray vs) = list_all numbersFit vs"
| "numbersFit (JObject ms) = list_all (\<lambda>member. numbersFit (snd member)) ms"
| "numbersFit _ = True"

definition inInt64 :: "int \<Rightarrow> bool" where
  "inInt64 i \<longleftrightarrow> - (2 ^ 63) \<le> i \<and> i < 2 ^ 63"

fun decodeInt64 :: "jvalue \<Rightarrow> int \<Rightarrow> int option" where
  "decodeInt64 JNull cur = Some cur"
| "decodeInt64 (JNum (JInt i)) cur = (if inInt64 i then Some i else None)"
| "decodeInt64 _ cur = None"

fun decodeMap :: "jvalue \<Rightarrow> gomap \<Rightarrow> gomap option" where
  "decodeMap JNull cur = Some []"
| "decodeMap (JObject ms) cur =
     (if list_all (\<lambda>member. numbersFit (snd member)) ms then Some (cur @ ms) else None)"
| "decodeMap _ cur = None"

definition toLowerASCII :: "char \<Rightarrow> char" where
  "toLowerASCII c =
     (let n = (of_char c :: nat) in if 65 \<le> n \<and> n \<le> 90 then char_of (n + 32) else c)"

definition decodeField :: "string \<times> jvalue \<Rightarrow> Operation \<Rightarrow> Operation option" where
  "decodeField member op =
     (let name = map toLowerASCII (fst member); v = snd member in
      if name = ''client_id'' then map_option (\<lambda>i. op\<lparr>ClientID := i\<rparr>) (decodeInt64 v (ClientID op))
      else if name = ''input'' then map_option (\<lambda>m. op\<lparr>Input := m\<rparr>) (decodeMap v (Input op))
      else if name = ''call'' then map_option (\<lambda>i. op\<lparr>Call := i\<rparr>) (decodeInt64 v (Call op))
      else if name = ''output'' then map_option (\<lambda>m. op\<lparr>Output := m\<rparr>) (decodeMap v (Output op))
      else if name = ''return_time'' then
        map_option (\<lambda>i. op\<lparr>ReturnTime := i\<rparr>) (decodeInt64 v (ReturnTime op))
      else Some op)"

fun decodeFields :: "(string \<times> jvalue) list \<Rightarrow> Operation \<Rightarrow> Operation option" where
  "decodeFields [] op = Some op"
| "decodeFields (member # ms) op =
     (case decodeField member op of None \<Rightarrow> None | Some op' \<Rightarrow> decodeFields ms op')"

definition zeroOperation :: Operation where
  "zeroOperation = \<lparr>ClientID = 0, Input = [], Call = 0, Output = [], ReturnTime = 0\<rparr>"

fun decodeOperation :: "jvalue \<Rightarrow> Operation option" where
  "decodeOperation JNull = Some zeroOperation"
| "decodeOperation (JObject ms) = decodeFields ms zeroOperation"
| "decodeOperation _ = None"

fun decodeAll :: "jvalue list \<Rightarrow> Operation list option" where
  "decodeAll [] = Some []"
| "decodeAll (v # vs) =
     (case decodeOperation v of
        None \<Rightarrow> None
      | Some op \<Rightarrow> (case decodeAll vs of None \<Rightarrow> None | Some ops \<Rightarrow> Some (op # ops)))"

fun unmarshal :: "filedata \<Rightarrow> Operation list option" where
  "unmarshal NotJSON = None"
| "unmarshal (JSON JNull) = Some []"
| "unmarshal (JSON (JArray vs)) = decodeAll vs"
| "unmarshal (JSON _) = None"

text \<open>
  What the decoder asks of a content, member by member: the JSON type of the five fields,
  and of the numbers inside \<open>input\<close> and \<open>output\<close> that they fit a \<open>float64\<close>.
\<close>

definition int64Literal :: "jvalue \<Rightarrow> bool" where
  "int64Literal v = (case v of JNull \<Rightarrow> True | JNum (JInt i) \<Rightarrow> inInt64 i | _ \<Rightarrow> False)"

definition mapFits :: "jvalue \<Rightarrow> bool" where
  "mapFits v =
     (case v of
        JNull \<Rightarrow> True
      | JObject ms \<Rightarrow> list_all (\<lambda>member. numbersFit (snd member)) ms
      | _ \<Rightarrow> False)"

definition memberFits :: "string \<times> jvalue \<Rightarrow> bool" where
  "memberFits member =
     (let name = map toLowerASCII (fst member) in
      if name = ''client_id'' \<or> name = ''call'' \<or> name = ''return_time''
      then int64Literal (snd member)
      else if name = ''input'' \<or> name = ''output'' then mapFits (snd member)
      else True)"

definition recordFits :: "jvalue \<Rightarrow> bool" where
  "recordFits v = (case v of JNull \<Rightarrow> True | JObject ms \<Rightarrow> list_all memberFits ms | _ \<Rightarrow> False)"

definition contentFits :: "filedata \<Rightarrow> bool" where
  "contentFits data =
     (case data of
        JSON JNull \<Rightarrow> True
      | JSON (JArray vs) \<Rightarrow> list_all recordFits vs
      | _ \<Rightarrow> False)"

text \<open>
  \<open>unmarshalError\<close> is the text of the error \<open>json.Unmarshal\<close> returns for a content it
  rejects.
\<close>

definition loadHistory ::
  "(filedata \<Rightarrow> string) \<Rightarrow> filesystem \<Rightarrow> string \<Rightarrow> goerror + Operation list" where
  "loadHistory unmarshalError fs historyPath =
     (case fs historyPath of
        Inl e \<Rightarrow> Inl (Error (''error reading file: '' @ e))
      | Inr data \<Rightarrow>
          (case unmarshal data of
             None \<Rightarrow> Inl (Error (''error parsing JSON: '' @ unmarshalError data))
           | Some ops \<Rightarrow> Inr ops))"

text \<open>
  The schema of the specification for one record: an \<open>input\<close> with a \<open>type\<close> among the
  three kinds, a string \<open>key\<close>, and a string \<open>value\<close> for Put.
\<close>

definition inputMatchesSchema :: "gomap \<Rightarrow> bool" where
  "inputMatchesSchema inp \<longleftrightarrow>
     assertString (mapIndex inp ''key'') \<noteq> None \<and>
     (mapIndex inp ''type'' = JString ''Get'' \<or> mapIndex inp ''type'' = JString ''Delete'' \<or>
      (mapIndex inp ''type'' = JString ''Put'' \<and> assertString (mapIndex inp ''value'') \<noteq> None))"

section \<open>Merging histories\<close>

text \<open>
  What the verifier takes from outside its own source: the \<open>Colorize\<close> helper and the
  colour constants of its package, and the operating system and libraries behind \<open>sys\<close>:
  the \<open>path/filepath\<close> functions, \<open>sort.Slice\<close>, the checking engine (called with
  the key-value model and the timeout of 30 seconds; its second result is what
  \<open>PartialLinearizations\<close> returns), the renderer, and for each call that can fail the
  text of its error (\<open>None\<close> when it succeeds). \<open>ListenAndServe\<close> returns only with an
  error: \<open>None\<close> stands for a server that runs until the process is killed.
\<close>

record palette =
  Colorize :: "string \<Rightarrow> string \<Rightarrow> string"
  ColorCyan :: string
  ColorYellow :: string
  ColorGreen :: string
  ColorRed :: string
  ColorBlue :: string
  ColorBold :: string

record sys =
  Base :: "string \<Rightarrow> string"
  Dir :: "string \<Rightarrow> string"
  Ext :: "string \<Rightarrow> string"
  Join :: "string \<Rightarrow> string \<Rightarrow> string"
  sortSlice :: "(Operation \<Rightarrow> Operation \<Rightarrow> bool) \<Rightarrow> Operation list \<Rightarrow> Operation list"
  CheckOperationsVerbose :: "porcupine_Operation list \<Rightarrow> string \<times> nat list list list"
  Visualize :: "nat list list list \<Rightarrow> string option"
  unmarshalError :: "filedata \<Rightarrow> string"
  WriteFile :: "string \<Rightarrow> string option"
  Create :: "string \<Rightarrow> string option"
  ListenAndServe :: "int \<Rightarrow> string option"
  programName :: string
  flagDefaults :: string

text \<open>What a run does to the outside, in order.\<close>

datatype event =
    Stdout string
  | Stderr string
  | EngineCalled "porcupine_Operation list"
  | FileWritten string
  | FileCreated string
  | ServerStarted int string

text \<open>
  \<open>json.MarshalIndent\<close> of the merged records (it cannot fail on values decoded from
  JSON). Every key of a map is written once.
\<close>

definition marshalMap :: "gomap \<Rightarrow> jvalue" where
  "marshalMap m = JObject (map (\<lambda>k. (k, mapIndex m k)) (remdups (map fst m)))"

definition marshalOperation :: "Operation \<Rightarrow> jvalue" where
  "marshalOperation op =
     JObject [(''client_id'', JNum (JInt (ClientID op))), (''input'', marshalMap (Input op)),
              (''call'', JNum (JInt (Call op))), (''output'', marshalMap (Output op)),
              (''return_time'', JNum (JInt (ReturnTime op)))]"

definition marshalIndent :: "Operation list \<Rightarrow> filedata" where
  "marshalIndent ops = JSON (JArray (map marshalOperation ops))"

text \<open>The comparison handed to \<open>sort.Slice\<close>.\<close>

definition callLess :: "Operation \<Rightarrow> Operation \<Rightarrow> bool" where
  "callLess a b \<longleftrightarrow> Call a < Call b"

text \<open>The loop of \<open>MergeHistories\<close> over the paths, \<open>allOps\<close> being the records so far.\<close>

fun loadAll ::
  "(filedata \<Rightarrow> string) \<Rightarrow> filesystem \<Rightarrow> string list \<Rightarrow> Operation list \<Rightarrow>
   goerror + Operation list" where
  "loadAll ue fs [] allOps = Inr allOps"
| "loadAll ue fs (path # paths) allOps =
     (case loadHistory ue fs path of
        Inl err \<Rightarrow> Inl (Error (''error loading '' @ path @ '': '' @ errorText err))
      | Inr ops \<Rightarrow> loadAll ue fs paths (allOps @ ops))"

definition MergeHistories ::
  "sys \<Rightarrow> filesystem \<Rightarrow> string list \<Rightarrow>
   gopanic + (filesystem \<times> event list \<times> (goerror + string))" where
  "MergeHistories sy fs historyPaths =
     (case loadAll (unmarshalError sy) fs historyPaths [] of
        Inl err \<Rightarrow> Inr (fs, [], Inl err)
      | Inr allOps \<Rightarrow>
          (let sorted = sortSlice sy callLess allOps in
           case historyPaths of
             [] \<Rightarrow> Inl IndexOutOfRangePanic
           | first # _ \<Rightarrow>
               (let mergedPath = Join sy (Dir sy first) ''merged-history.json'' in
                case WriteFile sy mergedPath of
                  Some e \<Rightarrow> Inr (fs, [], Inl (Error (''error writing merged history: '' @ e)))
                | None \<Rightarrow>
                    Inr (fs(mergedPath := Inr (marshalIndent sorted)),
                         [FileWritten mergedPath], Inr mergedPath))))"

text \<open>
  What \<open>sort.Slice\<close> promises for this comparison: the records it was given, in
  ascending order of \<open>call\<close>. Its documentation adds that the sort is not guaranteed to
  be stable.
\<close>

definition sortSliceContract ::
  "((Operation \<Rightarrow> Operation \<Rightarrow> bool) \<Rightarrow> Operation list \<Rightarrow> Operation list) \<Rightarrow> bool" where
  "sortSliceContract srt \<longleftrightarrow>
     (\<forall>xs. mset (srt callLess xs) = mset xs \<and> sorted (map Call (srt callLess xs)))"

text \<open>
  The merge as the specification words it: the concatenation sorted by ascending \<open>call\<close>
  with a stable sort.
\<close>

definition specMerge :: "Operation list list \<Rightarrow> Operation list" where
  "specMerge opss = sort_key Call (concat opss)"

section \<open>Checking a history\<close>

record HistoryResult =
  Path :: string
  HTMLPath :: string
  IsLinearizable :: bool
  TotalOps :: nat
  MaxPartialLen :: nat
  Result :: string

text \<open>The three values of \<open>porcupine.CheckResult\<close>, a string type.\<close>

definition Unknown :: string where "Unknown = ''Unknown''"
definition Ok :: string where "Ok = ''Ok''"

definition utf8 :: "nat list \<Rightarrow> string" where
  "utf8 bytes = map char_of bytes"

definition newline :: string where
  "newline = utf8 [10]"

text \<open>The verb \<open>%d\<close> on a length.\<close>

fun showNat :: "nat \<Rightarrow> string" where
  "showNat n =
     (if n < 10 then [char_of (48 + n)] else showNat (n div 10) @ [char_of (48 + n mod 10)])"

declare showNat.simps [simp del]

definition TrimSuffix :: "string \<Rightarrow> string \<Rightarrow> string" where
  "TrimSuffix s suffix =
     (if length suffix \<le> length s \<and> drop (length s - length suffix) s = suffix
      then take (length s - length suffix) s else s)"

definition calculateMaxPartialLength :: "nat list list list \<Rightarrow> nat" where
  "calculateMaxPartialLength partialLinearizations =
     fold (\<lambda>partition maxPartialLength.
             fold (\<lambda>linearization m. if length linearization > m then length linearization else m)
                  partition maxPartialLength)
          partialLinearizations 0"

definition generateVisualization ::
  "palette \<Rightarrow> sys \<Rightarrow> string \<Rightarrow> nat list list list \<Rightarrow> event list \<times> string" where
  "generateVisualization pal sy historyPath info =
     (let baseName = TrimSuffix (Base sy historyPath) (Ext sy historyPath);
          htmlPath = Join sy (Dir sy historyPath) (baseName @ ''.html'')
      in case Create sy htmlPath of
           Some e \<Rightarrow>
             ([Stderr (Colorize pal (''  '' @ utf8 [0xE2, 0x9A, 0xA0, 0xEF, 0xB8, 0x8F] @
                         '' Warning: Failed to create visualization file: '' @ e)
                       (ColorYellow pal) @ newline)], htmlPath)
         | None \<Rightarrow>
             (FileCreated htmlPath #
              (case Visualize sy info of
                 Some e \<Rightarrow>
                   [Stderr (Colorize pal (''  '' @ utf8 [0xE2, 0x9A, 0xA0, 0xEF, 0xB8, 0x8F] @
                              '' Warning: Failed to generate visualization: '' @ e)
                            (ColorYellow pal) @ newline)]
               | None \<Rightarrow>
                   [Stdout (Colorize pal (''  '' @ utf8 [0xF0, 0x9F, 0x96, 0xBC, 0xEF, 0xB8, 0x8F] @
                              ''  Generated visualization: '' @ htmlPath)
                            (ColorGreen pal) @ newline)]), htmlPath))"

text \<open>
  The headline \<open>printResults\<close> prints for every result other than \<open>Ok\<close>, and its last
  line, which shows the result of the engine with the verb \<open>%v\<close>.
\<close>

definition notLinearizableLine :: "palette \<Rightarrow> string" where
  "notLinearizableLine pal =
     Colorize pal (''  '' @ utf8 [0xF0, 0x9F, 0x9A, 0xAB] @ '' History is NOT linearizable'')
       (ColorRed pal) @ newline"

definition checkResultLine :: "palette \<Rightarrow> string \<Rightarrow> string" where
  "checkResultLine pal result =
     Colorize pal (''  '' @ utf8 [0xE2, 0x9A, 0xA0, 0xEF, 0xB8, 0x8F] @ '' Check result: '' @ result)
       (ColorYellow pal) @ newline"

definition printResults :: "palette \<Rightarrow> string \<Rightarrow> nat \<Rightarrow> nat \<Rightarrow> event list" where
  "printResults pal result totalOps maxPartialLength =
     (if result = Ok then
        [Stdout (Colorize pal (''  '' @ utf8 [0xE2, 0x9C, 0x85] @ '' History is linearizable'')
                   (ColorGreen pal) @ newline),
         Stdout (Colorize pal (''  '' @ utf8 [0xF0, 0x9F, 0xA7, 0xAE] @ '' Total operations: '' @
                                showNat totalOps) (ColorGreen pal) @ newline)] @
        (if maxPartialLength > 0 then
           [Stdout (Colorize pal (''  '' @ utf8 [0xF0, 0x9F, 0x93, 0x8C] @
                      '' Max partial linearization length: '' @ showNat maxPartialLength)
                    (ColorGreen pal) @ newline)]
         else [])
      else
        [Stdout (notLinearizableLine pal),
         Stdout (Colorize pal (''  '' @ utf8 [0xF0, 0x9F, 0xA7, 0xAE] @ '' Total operations: '' @
                                showNat totalOps) (ColorRed pal) @ newline)] @
        (if maxPartialLength > 0 then
           [Stdout (Colorize pal (''  '' @ utf8 [0xF0, 0x9F, 0x93, 0x8C] @
                      '' Max partial linearization length: '' @ showNat maxPartialLength @
                      '' (out of '' @ showNat totalOps @ '')'')
                    (ColorRed pal) @ newline)]
         else []) @
        [Stdout (checkResultLine pal result)])"

definition ProcessHistory ::
  "palette \<Rightarrow> sys \<Rightarrow> filesystem \<Rightarrow> string \<Rightarrow> event list \<times> HistoryResult" where
  "ProcessHistory pal sy fs historyPath =
     (let banner = Stdout (newline @ Colorize pal (utf8 [0xF0, 0x9F, 0xA7, 0xAA] @
                     '' Processing '' @ Base sy historyPath) (ColorCyan pal) @ newline)
      in case loadHistory (unmarshalError sy) fs historyPath of
           Inl err \<Rightarrow>
             ([banner, Stderr (''Error: '' @ errorText err @ newline)],
              \<lparr>Path = historyPath, HTMLPath = [], IsLinearizable = False, TotalOps = 0,
               MaxPartialLen = 0, Result = []\<rparr>)
         | Inr ops \<Rightarrow>
             if length ops = 0 then
               ([banner,
                 Stdout (Colorize pal (''  '' @ utf8 [0xE2, 0x9A, 0xAA, 0xEF, 0xB8, 0x8F] @
                           '' No operations found in history'') (ColorYellow pal) @ newline)],
                \<lparr>Path = historyPath, HTMLPath = [], IsLinearizable = True, TotalOps = 0,
                 MaxPartialLen = 0, Result = []\<rparr>)
             else
               (let history = convertToPorcupineOperations ops;
                    (result, info) = CheckOperationsVerbose sy history;
                    maxPartialLength = calculateMaxPartialLength info;
                    (vis, htmlPath) = generateVisualization pal sy historyPath info
                in ([banner, EngineCalled history] @ vis @
                    printResults pal result (length history) maxPartialLength,
                    \<lparr>Path = historyPath, HTMLPath = htmlPath, IsLinearizable = (result = Ok),
                     TotalOps = length history, MaxPartialLen = maxPartialLength,
                     Result = result\<rparr>)))"

section \<open>The command\<close>






section \<open>Concrete instances\<close>

text \<open>
  A palette that leaves the text as it is, and a system whose engine is undecided on
  every history and whose \<open>sort.Slice\<close> is an insertion sort that puts a record behind
  the records of the same \<open>call\<close> already placed.
\<close>

definition plainPalette :: palette where
  "plainPalette =
     \<lparr>Colorize = (\<lambda>text color. text), ColorCyan = [], ColorYellow = [], ColorGreen = [],
      ColorRed = [], ColorBlue = [], ColorBold = []\<rparr>"

fun insertBehind :: "('a \<Rightarrow> 'a \<Rightarrow> bool) \<Rightarrow> 'a \<Rightarrow> 'a list \<Rightarrow> 'a list" where
  "insertBehind lt x [] = [x]"
| "insertBehind lt x (y # ys) = (if lt x y then x # y # ys else y # insertBehind lt x ys)"

definition tieReversingSort :: "('a \<Rightarrow> 'a \<Rightarrow> bool) \<Rightarrow> 'a list \<Rightarrow> 'a list" where
  "tieReversingSort lt xs = foldr (insertBehind lt) xs []"

definition undecidedSystem :: sys where
  "undecidedSystem =
     \<lparr>Base = (\<lambda>p. p), Dir = (\<lambda>p. ''.''), Ext = (\<lambda>p. ''.json''),
      Join = (\<lambda>dir file. dir @ ''/'' @ file), sortSlice = tieReversingSort,
      CheckOperationsVerbose = (\<lambda>history. (Unknown, [])), Visualize = (\<lambda>info. None),
      unmarshalError = (\<lambda>data. ''invalid content''), WriteFile = (\<lambda>p. None),
      Create = (\<lambda>p. None), ListenAndServe = (\<lambda>port. Some ''address already in use''),
      programName = ''verifier'', flagDefaults = []\<rparr>"

text \<open>
  Two trace files: twelve Puts of one client each, all called at time 1, and one Put
  called at time 0. And a trace file of one Get whose input has no key.
\<close>

definition putRecord :: "int \<Rightarrow> int \<Rightarrow> string \<Rightarrow> string \<Rightarrow> Operation" where
  "putRecord client t k v =
     \<lparr>ClientID = client,
      Input = [(''type'', JString ''Put''), (''key'', JString k), (''value'', JString v)],
      Call = t, Output = [(''status'', JString ''ok'')], ReturnTime = t + 1\<rparr>"

definition tiedRecords :: "Operation list" where
  "tiedRecords = map (\<lambda>client. putRecord client 1 ''k'' ''v'') [0, 1, 2, 3, 4, 5, 6, 7, 8, 9, 10, 11]"

definition earlierRecord :: Operation where
  "earlierRecord = putRecord 12 0 ''k'' ''w''"

definition twoFiles :: filesystem where
  "twoFiles path =
     (if path = ''a.json'' then Inr (marshalIndent tiedRecords)
      else if path = ''b.json'' then Inr (marshalIndent [earlierRecord])
      else Inl ''no such file or directory'')"

definition keylessGet :: jvalue where
  "keylessGet =
     JObject [(''client_id'', JNum (JInt 1)), (''input'', JObject [(''type'', JString ''Get'')]),
              (''call'', JNum (JInt 0)), (''output'', JObject [(''status'', JString ''ok'')]),
              (''return_time'', JNum (JInt 1))]"

definition keylessFile :: filesystem where
  "keylessFile path = Inr (JSON (JArray [keylessGet]))"

text \<open>A trace file of one Get whose input holds the number \<open>1e999\<close>.\<close>

definition overflowGet :: jvalue where
  "overflowGet =
     JObject [(''client_id'', JNum (JInt 1)),
              (''input'', JObject [(''type'', JString ''Get''), (''key'', JString ''x''),
                                   (''value'', JNum (JFrac 1 999))]),
              (''call'', JNum (JInt 0)), (''output'', JObject [(''status'', JString ''ok'')]),
              (''return_time'', JNum (JInt 1))]"

definition overflowFile :: filesystem where
  "overflowFile path = Inr (JSON (JArray [overflowGet]))"

text \<open>
  A history of a Put on the key \<open>__unknown__\<close> and of a record without input, as the
  orchestrator hands it to the engine.
\<close>

definition sentinelHistory :: "porcupine_Operation list" where
  "sentinelHistory =
     convertToPorcupineOperations [putRecord 1 0 ''__unknown__'' ''1'', zeroOperation]"


definition emptyFile :: filesystem where
  "emptyFile path = Inr (JSON (JArray []))"

section \<open>Properties of the model\<close>

lemma assertString_Some: "assertString v = Some s \<longleftrightarrow> v = JString s"
  by (cases v) auto

subsection \<open>The handlers\<close>

lemma handleGet_eq:
  assumes "mapIndex inp ''key'' = JString k"
  shows "handleGet st inp out =
           (mapIndex out ''status'' = JString ''ok'' \<and>
            (case st k of
               None \<Rightarrow> mapIndex out ''value'' = JNull
             | Some v \<Rightarrow> mapIndex out ''value'' = JString v), st)"
proof (cases "mapIndex out ''status'' = JString ''ok''")
  case False
  then show ?thesis using assms
    by (cases "assertString (mapIndex out ''status'')") (auto simp: handleGet_def assertString_Some)
next
  case True
  show ?thesis
  proof (cases "st k")
    case None
    then show ?thesis using assms True by (simp add: handleGet_def)
  next
    case (Some v)
    then show ?thesis using assms True
      by (cases "mapIndex out ''value''") (simp_all add: handleGet_def)
  qed
qed

lemma handlePut_illegal: "fst (handlePut st inp) = False \<Longrightarrow> snd (handlePut st inp) = st"
  by (simp add: handlePut_def split: option.splits)

lemma handleGet_state: "snd (handleGet st inp out) = st"
  by (simp add: handleGet_def Let_def split: option.splits)

lemma handleDelete_illegal:
  "fst (handleDelete st inp) = False \<Longrightarrow> snd (handleDelete st inp) = st"
  by (simp add: handleDelete_def split: option.splits)

lemma stepMaps_illegal: "stepMaps st inp out = (False, st') \<Longrightarrow> st' = st"
  unfolding stepMaps_def
  using handlePut_illegal [of st inp] handleGet_state [of st inp out]
    handleDelete_illegal [of st inp]
  by (auto split: option.splits if_splits)

lemma handlePut_shape:
  "assertString (mapIndex inp ''key'') = None \<or> assertString (mapIndex inp ''value'') = None
   \<Longrightarrow> handlePut st inp = (False, st)"
  by (auto simp add: handlePut_def split: option.splits)

lemma handleDelete_shape:
  "assertString (mapIndex inp ''key'') = None \<Longrightarrow> handleDelete st inp = (False, st)"
  by (simp add: handleDelete_def)

lemma handleGet_shape_key:
  "assertString (mapIndex inp ''key'') = None \<Longrightarrow> handleGet st inp out = (False, st)"
  by (simp add: handleGet_def)

lemma handleGet_shape_status:
  "assertString (mapIndex out ''status'') = None \<Longrightarrow> handleGet st inp out = (False, st)"
  by (simp add: handleGet_def split: option.splits)

lemma handleGet_shape_value:
  "mapIndex out ''value'' \<noteq> JNull \<Longrightarrow> assertString (mapIndex out ''value'') = None \<Longrightarrow>
   handleGet st inp out = (False, st)"
  by (simp add: handleGet_def Let_def split: option.splits)

lemma stepMaps_shape: "\<not> wellShaped inp out \<Longrightarrow> stepMaps st inp out = (False, st)"
  unfolding wellShaped_def stepMaps_def
  using handlePut_shape [of inp st] handleDelete_shape [of inp st]
    handleGet_shape_key [of inp st out] handleGet_shape_status [of out st inp]
    handleGet_shape_value [of out st inp]
  by (auto split: option.splits if_splits)

lemma stepMaps_put: "isPut inp k v \<Longrightarrow> stepMaps st inp out = (True, st(k \<mapsto> v))"
  by (simp add: isPut_def stepMaps_def handlePut_def)

lemma stepMaps_delete: "isDelete inp k \<Longrightarrow> stepMaps st inp out = (True, st(k := None))"
  by (simp add: isDelete_def stepMaps_def handleDelete_def)

lemma putOrDelete_cases:
  "putOrDelete inp \<Longrightarrow> (\<exists>k v. isPut inp k v) \<or> (\<exists>k. isDelete inp k)"
  by (auto simp: putOrDelete_def isPut_def isDelete_def assertString_Some)

lemma effect_put: "isPut inp k v \<Longrightarrow> effect inp st = st(k \<mapsto> v)"
  by (simp add: isPut_def effect_def)

lemma effect_delete: "isDelete inp k \<Longrightarrow> effect inp st = st(k := None)"
  by (simp add: isDelete_def effect_def)

lemma stepMaps_putOrDelete: "putOrDelete inp \<Longrightarrow> stepMaps st inp out = (True, effect inp st)"
  using putOrDelete_cases [of inp]
  by (auto simp: stepMaps_put stepMaps_delete effect_put effect_delete)

lemma replay_putOrDelete:
  "\<forall>p \<in> set ops. putOrDelete (fst p) \<Longrightarrow>
   replay (MapSS st) (map (\<lambda>(i, out). (MapSI i, MapSI out)) ops) =
     Inr (True, MapSS (fold (\<lambda>(i, out). effect i) ops st))"
proof (induction ops arbitrary: st)
  case Nil
  then show ?case by simp
next
  case (Cons p ops)
  obtain i out where p: "p = (i, out)" by (cases p)
  from Cons.prems p have "stepMaps st i out = (True, effect i st)"
    by (simp add: stepMaps_putOrDelete)
  moreover from Cons.prems have "\<forall>p \<in> set ops. putOrDelete (fst p)" by simp
  ultimately show ?case using Cons.IH [of "effect i st"] p by simp
qed

text \<open>
  C1. For every state and every Get on a key, \<open>Step\<close> returns without a panic, leaves
  the state as it is, and reports the operation legal exactly when the \<open>status\<close> of the
  output is the string \<open>ok\<close> and the \<open>value\<close> of the output matches the binding of the
  key: nil (absent or null) when the key is not bound, so that any other value, the empty
  string included, is illegal; the stored string when the key is bound.
\<close>

theorem Step_Get_legal_iff:
  assumes "isGet inp k"
  shows "Step (MapSS st) (MapSI inp) (MapSI out) =
           Inr (mapIndex out ''status'' = JString ''ok'' \<and>
                (case st k of
                   None \<Rightarrow> mapIndex out ''value'' = JNull
                 | Some v \<Rightarrow> mapIndex out ''value'' = JString v),
                MapSS st)"
  using assms by (simp add: isGet_def stepMaps_def handleGet_eq)

theorem Step_Get_legal_iff_witness:
  "isGet [(''type'', JString ''Get''), (''key'', JString ''x'')] ''x'' \<and>
   Step (MapSS Map.empty) (MapSI [(''type'', JString ''Get''), (''key'', JString ''x'')])
        (MapSI [(''status'', JString ''ok''), (''value'', JString [])]) =
     Inr (False, MapSS Map.empty) \<and>
   Step (MapSS Map.empty) (MapSI [(''type'', JString ''Get''), (''key'', JString ''x'')])
        (MapSI [(''status'', JString ''ok'')]) =
     Inr (True, MapSS Map.empty) \<and>
   Step (MapSS [''x'' \<mapsto> ''1'']) (MapSI [(''type'', JString ''Get''), (''key'', JString ''x'')])
        (MapSI [(''status'', JString ''ok''), (''value'', JString ''1'')]) =
     Inr (True, MapSS [''x'' \<mapsto> ''1''])"
proof -
  have g: "isGet [(''type'', JString ''Get''), (''key'', JString ''x'')] ''x''"
    by (simp add: isGet_def mapIndex_def)
  show ?thesis
    using g
      Step_Get_legal_iff [OF g, of Map.empty "[(''status'', JString ''ok''), (''value'', JString [])]"]
      Step_Get_legal_iff [OF g, of Map.empty "[(''status'', JString ''ok'')]"]
      Step_Get_legal_iff [OF g, of "[''x'' \<mapsto> ''1'']"
        "[(''status'', JString ''ok''), (''value'', JString ''1'')]"]
    by (simp add: mapIndex_def)
qed

text \<open>
  What reaches \<open>Step\<close>: the state of \<open>Init\<close> is a string map, a step on a string map
  and two maps returns a string map, and the inputs and outputs of the history that
  \<open>ProcessHistory\<close> hands to the engine are maps.
\<close>

lemma engine_arguments:
  "Init = MapSS Map.empty"
  "map p_Input (convertToPorcupineOperations ops) = map (\<lambda>op. MapSI (Input op)) ops"
  "map p_Output (convertToPorcupineOperations ops) = map (\<lambda>op. MapSI (Output op)) ops"
  by (simp_all add: Init_def convertToPorcupineOperations_def)

text \<open>
  C5. On a state that is a string map and an input and an output that are maps, which is
  what the orchestrator and the engine pass, \<open>Step\<close> never panics: it returns a boolean
  and a state, and for an operation whose input or output does not have the shape of its
  kind (a field missing or of another type, the type tag missing or unknown) the boolean
  is false and the state is the one given.
\<close>

theorem Step_never_raises:
  "\<exists>legal st'. Step (MapSS st) (MapSI inp) (MapSI out) = Inr (legal, MapSS st') \<and>
     (\<not> wellShaped inp out \<longrightarrow> \<not> legal \<and> st' = st)"
proof (cases "wellShaped inp out")
  case True
  then show ?thesis by (cases "stepMaps st inp out") simp
next
  case False
  then show ?thesis by (auto simp: stepMaps_shape)
qed

theorem Step_never_raises_witness:
  "\<not> wellShaped [(''type'', JString ''Put''), (''key'', JString ''x'')] [] \<and>
   Step (MapSS Map.empty) (MapSI [(''type'', JString ''Put''), (''key'', JString ''x'')]) (MapSI []) =
     Inr (False, MapSS Map.empty)"
proof -
  have w: "\<not> wellShaped [(''type'', JString ''Put''), (''key'', JString ''x'')] []"
    by (simp add: wellShaped_def mapIndex_def)
  from Step_never_raises [of Map.empty "[(''type'', JString ''Put''), (''key'', JString ''x'')]" "[]"] w
  show ?thesis by auto
qed

text \<open>
  C6. For every state and every output, \<open>Step\<close> reports a well-formed Put legal and
  returns the state with the key bound to the value, and reports a well-formed Delete
  legal and returns the state without the key (the same state when the key was not bound).
  Hence the replay of any sequence of well-formed Puts and Deletes, on one key or on many,
  is legal to its end.
\<close>

theorem Put_Delete_always_legal:
  "(isPut inp k v \<longrightarrow>
      Step (MapSS st) (MapSI inp) (MapSI out) = Inr (True, MapSS (st(k \<mapsto> v)))) \<and>
   (isDelete inp k \<longrightarrow>
      Step (MapSS st) (MapSI inp) (MapSI out) = Inr (True, MapSS (st(k := None))) \<and>
      (st k = None \<longrightarrow> st(k := None) = st)) \<and>
   ((\<forall>p \<in> set ops. putOrDelete (fst p)) \<longrightarrow>
      replay (MapSS st) (map (\<lambda>(i, out). (MapSI i, MapSI out)) ops) =
        Inr (True, MapSS (fold (\<lambda>(i, out). effect i) ops st)))"
  using replay_putOrDelete [of ops st]
  by (auto simp: stepMaps_put stepMaps_delete)

theorem Put_Delete_always_legal_witness:
  "isPut [(''type'', JString ''Put''), (''key'', JString ''x''), (''value'', JString ''1'')] ''x'' ''1'' \<and>
   isDelete [(''type'', JString ''Delete''), (''key'', JString ''x'')] ''x'' \<and>
   Step (MapSS Map.empty)
        (MapSI [(''type'', JString ''Put''), (''key'', JString ''x''), (''value'', JString ''1'')])
        (MapSI []) = Inr (True, MapSS [''x'' \<mapsto> ''1'']) \<and>
   Step (MapSS Map.empty) (MapSI [(''type'', JString ''Delete''), (''key'', JString ''x'')])
        (MapSI []) = Inr (True, MapSS Map.empty) \<and>
   replay (MapSS Map.empty)
     [(MapSI [(''type'', JString ''Put''), (''key'', JString ''x''), (''value'', JString ''1'')],
       MapSI []),
      (MapSI [(''type'', JString ''Delete''), (''key'', JString ''x'')], MapSI [])] =
     Inr (True, MapSS Map.empty)"
proof -
  let ?put = "[(''type'', JString ''Put''), (''key'', JString ''x''), (''value'', JString ''1'')]"
  let ?del = "[(''type'', JString ''Delete''), (''key'', JString ''x'')]"
  have p: "isPut ?put ''x'' ''1''" by (simp add: isPut_def mapIndex_def)
  have d: "isDelete ?del ''x''" by (simp add: isDelete_def mapIndex_def)
  have a: "\<forall>p \<in> set [(?put, []), (?del, [])]. putOrDelete (fst p)"
    by (simp add: putOrDelete_def mapIndex_def)
  have e: "fold (\<lambda>(i, out). effect i) [(?put, []), (?del, [])] Map.empty = Map.empty"
    by (simp add: effect_def mapIndex_def)
  from Put_Delete_always_legal [of ?put "''x''" "''1''" Map.empty "[]" "[(?put, []), (?del, [])]"] p
  have 1: "Step (MapSS Map.empty) (MapSI ?put) (MapSI []) = Inr (True, MapSS [''x'' \<mapsto> ''1''])"
    by blast
  from Put_Delete_always_legal [of ?del "''x''" "''1''" Map.empty "[]" "[(?put, []), (?del, [])]"] d
  have 2: "Step (MapSS Map.empty) (MapSI ?del) (MapSI []) = Inr (True, MapSS Map.empty)"
    by simp
  from Put_Delete_always_legal [of ?put "''x''" "''1''" Map.empty "[]" "[(?put, []), (?del, [])]"] a e
  have 3: "replay (MapSS Map.empty) (map (\<lambda>(i, out). (MapSI i, MapSI out)) [(?put, []), (?del, [])]) =
     Inr (True, MapSS Map.empty)"
    by (simp del: replay.simps Step.simps)
  from p d 1 2 3 show ?thesis by (simp del: replay.simps Step.simps)
qed

text \<open>
  C10. Whenever \<open>Step\<close> reports an operation illegal, the state it returns is the state
  it was given, whatever the kind of the operation.
\<close>

theorem Step_illegal_keeps_state:
  "Step s i out = Inr (False, s') \<Longrightarrow> s' = s"
proof (cases "(s, i, out)" rule: Step.cases)
  case (1 st inp outp)
  assume r: "Step s i out = Inr (False, s')"
  obtain legal st' where m: "stepMaps st inp outp = (legal, st')"
    by (cases "stepMaps st inp outp")
  with 1 r have "legal = False" and s': "s' = MapSS st'" by simp_all
  with m have "st' = st" using stepMaps_illegal by simp
  with s' 1 show ?thesis by simp
qed simp_all

theorem Step_illegal_keeps_state_witness:
  "Step (MapSS [''x'' \<mapsto> ''1'']) (MapSI [(''type'', JString ''Get''), (''key'', JString ''x'')])
        (MapSI [(''status'', JString ''ok''), (''value'', JString ''2'')]) =
     Inr (False, MapSS [''x'' \<mapsto> ''1''])"
proof -
  let ?s = "MapSS [''x'' \<mapsto> ''1'']"
  let ?i = "MapSI [(''type'', JString ''Get''), (''key'', JString ''x'')]"
  let ?out = "MapSI [(''status'', JString ''ok''), (''value'', JString ''2'')]"
  obtain legal s' where r: "Step ?s ?i ?out = Inr (legal, s')"
    by (cases "stepMaps [''x'' \<mapsto> ''1''] [(''type'', JString ''Get''), (''key'', JString ''x'')]
          [(''status'', JString ''ok''), (''value'', JString ''2'')]") simp
  then have "\<not> legal"
    by (auto simp: stepMaps_def handleGet_def mapIndex_def)
  with r have f: "Step ?s ?i ?out = Inr (False, s')" by (simp del: Step.simps)
  from Step_illegal_keeps_state [OF f] f show ?thesis by (simp del: Step.simps)
qed

subsection \<open>Partitioning\<close>

lemma collect_maps:
  "\<forall>op \<in> set history. inputIsMap op \<Longrightarrow>
   collect history m =
     Inr (\<lambda>k. if filter (\<lambda>op. keyOf op = k) history = [] then m k
              else Some ((case m k of None \<Rightarrow> [] | Some ops \<Rightarrow> ops) @
                         filter (\<lambda>op. keyOf op = k) history))"
proof (induction history arbitrary: m)
  case Nil
  then show ?case by simp
next
  case (Cons op history)
  from Cons.prems obtain inp where inp: "p_Input op = MapSI inp"
    by (cases "p_Input op") (simp_all add: inputIsMap_def)
  then have key: "keyOf op = bucketKey inp" by (simp add: keyOf_def)
  from Cons.prems have rest: "\<forall>op \<in> set history. inputIsMap op" by simp
  show ?case
    unfolding collect.simps inp goval.case Let_def Cons.IH [OF rest]
    by (rule arg_cong [where f = Inr], rule ext) (simp add: key)
qed

lemma map_filter_total:
  "\<forall>k \<in> set ks. f k = Some (g k) \<Longrightarrow> List.map_filter f ks = map g ks"
  by (induction ks) (simp_all add: map_filter_simps)

lemma partitionByKey_groups:
  assumes maps: "\<forall>op \<in> set history. inputIsMap op" and order: "visitOrder history ks"
  shows "partitionByKey ks history = Inr (map (\<lambda>k. filter (\<lambda>op. keyOf op = k) history) ks)"
    and "distinct ks" and "set ks = keyOf ` set history"
proof -
  let ?parts = "\<lambda>k. if filter (\<lambda>op. keyOf op = k) history = [] then None
                     else Some (filter (\<lambda>op. keyOf op = k) history)"
  have c: "collect history Map.empty = Inr ?parts"
    using collect_maps [OF maps, of Map.empty] by (simp cong: if_cong)
  with order have r: "rangeOrder ?parts ks" by (simp add: visitOrder_def)
  then show "distinct ks" by (simp add: rangeOrder_def)
  have "dom ?parts = keyOf ` set history"
    by (auto simp: dom_def filter_empty_conv)
  with r show s: "set ks = keyOf ` set history" by (simp add: rangeOrder_def)
  then have "\<forall>k \<in> set ks. ?parts k = Some (filter (\<lambda>op. keyOf op = k) history)"
    by (auto simp: filter_empty_conv)
  then have "List.map_filter ?parts ks = map (\<lambda>k. filter (\<lambda>op. keyOf op = k) history) ks"
    by (rule map_filter_total)
  with c show "partitionByKey ks history =
      Inr (map (\<lambda>k. filter (\<lambda>op. keyOf op = k) history) ks)"
    by (simp add: partitionByKey_def)
qed

lemma mset_filter_split:
  "k \<notin> set ks \<Longrightarrow>
   mset (filter (\<lambda>x. f x = k) h) + mset (filter (\<lambda>x. f x \<in> set ks) h) =
   mset (filter (\<lambda>x. f x \<in> set (k # ks)) h)"
  by (induction h) auto

lemma mset_groups:
  "distinct ks \<Longrightarrow>
   mset (concat (map (\<lambda>k. filter (\<lambda>x. f x = k) h) ks)) = mset (filter (\<lambda>x. f x \<in> set ks) h)"
proof (induction ks)
  case Nil
  then show ?case by simp
next
  case (Cons k ks)
  then have "mset (concat (map (\<lambda>k. filter (\<lambda>x. f x = k) h) (k # ks))) =
      mset (filter (\<lambda>x. f x = k) h) + mset (filter (\<lambda>x. f x \<in> set ks) h)"
    by simp
  also have "\<dots> = mset (filter (\<lambda>x. f x \<in> set (k # ks)) h)"
    using Cons.prems by (intro mset_filter_split) simp
  finally show ?case .
qed

lemma keyless_key: "keyless op \<Longrightarrow> keyOf op = ''__unknown__''"
  by (cases "p_Input op") (simp_all add: keyless_def keyOf_def bucketKey_def)

lemma keyOf_iff:
  "inputIsMap op \<Longrightarrow>
   keyOf op = k \<longleftrightarrow> stringKey op = Some k \<or> (k = ''__unknown__'' \<and> keyless op)"
  by (cases "p_Input op")
     (auto simp: inputIsMap_def keyOf_def bucketKey_def stringKey_def keyless_def
           split: option.splits)

lemma convert_inputIsMap: "\<forall>op \<in> set (convertToPorcupineOperations ops). inputIsMap op"
  by (simp add: convertToPorcupineOperations_def inputIsMap_def)

text \<open>
  C7, as the claim states it, fails on a history with a Put on the key \<open>__unknown__\<close>
  and an operation without a key: the map has the one key \<open>__unknown__\<close>, and the one
  group of the result holds both operations. The group of the keyless operation is not
  an extra one, and the operations of that group do not have one key.
\<close>

theorem partitionByKey_sentinel_counterexample:
  "list_all inputIsMap sentinelHistory \<and>
   visitOrder sentinelHistory [''__unknown__''] \<and>
   partitionByKey [''__unknown__''] sentinelHistory = Inr [sentinelHistory] \<and>
   length sentinelHistory = 2 \<and>
   stringKey (hd sentinelHistory) = Some ''__unknown__'' \<and>
   \<not> keyless (hd sentinelHistory) \<and>
   stringKey (last sentinelHistory) = None \<and>
   keyless (last sentinelHistory)"
proof -
  have v: "visitOrder sentinelHistory [''__unknown__'']"
    by (auto simp: visitOrder_def rangeOrder_def sentinelHistory_def
        convertToPorcupineOperations_def putRecord_def zeroOperation_def bucketKey_def
        mapIndex_def Let_def)
  have p: "partitionByKey [''__unknown__''] sentinelHistory = Inr [sentinelHistory]"
    by (simp add: partitionByKey_def sentinelHistory_def convertToPorcupineOperations_def
        putRecord_def zeroOperation_def bucketKey_def mapIndex_def Let_def map_filter_simps)
  have k: "list_all inputIsMap sentinelHistory" "length sentinelHistory = 2"
    "stringKey (hd sentinelHistory) = Some ''__unknown__''" "\<not> keyless (hd sentinelHistory)"
    "stringKey (last sentinelHistory) = None" "keyless (last sentinelHistory)"
    by (simp_all add: sentinelHistory_def convertToPorcupineOperations_def putRecord_def
        zeroOperation_def inputIsMap_def stringKey_def keyless_def mapIndex_def)
  from v p k show ?thesis by blast
qed

text \<open>
  C7, amended. For every history whose inputs are maps (every history the orchestrator
  builds) and every order in which the runtime visits the keys of the map,
  \<open>partitionByKey\<close> returns a disjoint cover: one group per key of the map, none empty,
  the groups together holding every operation as often as the history does, and every
  operation in exactly one group. The key of the map under which an operation is filed
  is its string key, or \<open>__unknown__\<close> when it has none: the group of a key holds, in
  their order in the history, the operations with that string key and, for the key
  \<open>__unknown__\<close>, also the operations without a key. So every operation without a key
  is in the one group of \<open>__unknown__\<close>, which it shares with the operations whose key
  is that string.
\<close>

theorem partitionByKey_disjoint_cover:
  assumes "\<forall>op \<in> set history. inputIsMap op" and "visitOrder history ks"
  shows "\<exists>partitions.
           partitionByKey ks history = Inr partitions \<and>
           partitions = map (\<lambda>k. filter (\<lambda>op. keyOf op = k) history) ks \<and>
           distinct ks \<and> [] \<notin> set partitions \<and>
           mset (concat partitions) = mset history \<and>
           (\<forall>op \<in> set history. \<exists>!i. i < length partitions \<and> op \<in> set (partitions ! i)) \<and>
           (\<forall>op \<in> set history. keyless op \<longrightarrow>
              (\<exists>i < length partitions. ks ! i = ''__unknown__'' \<and> op \<in> set (partitions ! i))) \<and>
           (\<forall>i < length partitions.
              partitions ! i =
                filter (\<lambda>op. stringKey op = Some (ks ! i) \<or>
                             (ks ! i = ''__unknown__'' \<and> keyless op)) history)"
proof -
  let ?ps = "map (\<lambda>k. filter (\<lambda>op. keyOf op = k) history) ks"
  note g = partitionByKey_groups [OF assms]
  have ne: "[] \<notin> set ?ps"
    using g(3) by (auto simp: filter_empty_conv empty_filter_conv)
  have "mset (concat ?ps) = mset (filter (\<lambda>op. keyOf op \<in> set ks) history)"
    using g(2) by (rule mset_groups)
  also have "\<dots> = mset history"
    using g(3) by (simp add: filter_id_conv [THEN iffD2])
  finally have cover: "mset (concat ?ps) = mset history" .
  have one: "\<exists>!i. i < length ?ps \<and> op \<in> set (?ps ! i)" if "op \<in> set history" for op
  proof -
    from that g(3) have "keyOf op \<in> set ks" by auto
    then obtain i where i: "i < length ks" "ks ! i = keyOf op"
      by (auto simp: in_set_conv_nth)
    show ?thesis
    proof (rule ex1I [of _ i])
      from i that show "i < length ?ps \<and> op \<in> set (?ps ! i)" by simp
    next
      fix j
      assume "j < length ?ps \<and> op \<in> set (?ps ! j)"
      then have "j < length ks" "ks ! j = keyOf op" by auto
      with i g(2) show "j = i" using nth_eq_iff_index_eq [of ks j i] by simp
    qed
  qed
  have unknown: "\<exists>i < length ?ps. ks ! i = ''__unknown__'' \<and> op \<in> set (?ps ! i)"
    if "op \<in> set history" "keyless op" for op
  proof -
    from that have k: "keyOf op = ''__unknown__''" by (simp add: keyless_key)
    with that g(3) have "''__unknown__'' \<in> set ks" by force
    then obtain i where "i < length ks" "ks ! i = ''__unknown__''"
      by (auto simp: in_set_conv_nth)
    with that k show ?thesis by auto
  qed
  have groups: "?ps ! i =
      filter (\<lambda>op. stringKey op = Some (ks ! i) \<or> (ks ! i = ''__unknown__'' \<and> keyless op)) history"
    if "i < length ?ps" for i
  proof -
    from that have "?ps ! i = filter (\<lambda>op. keyOf op = ks ! i) history" by simp
    also have "\<dots> =
        filter (\<lambda>op. stringKey op = Some (ks ! i) \<or> (ks ! i = ''__unknown__'' \<and> keyless op)) history"
      using assms(1) by (intro filter_cong refl) (simp add: keyOf_iff)
    finally show ?thesis .
  qed
  from g(1) g(2) ne cover one unknown groups show ?thesis by blast
qed

theorem partitionByKey_disjoint_cover_witness:
  "list_all inputIsMap (convertToPorcupineOperations
        [putRecord 1 0 ''a'' ''1'', zeroOperation, putRecord 2 3 ''a'' ''2'']) \<and>
   visitOrder (convertToPorcupineOperations
        [putRecord 1 0 ''a'' ''1'', zeroOperation, putRecord 2 3 ''a'' ''2''])
     [''__unknown__'', ''a''] \<and>
   partitionByKey [''__unknown__'', ''a'']
     (convertToPorcupineOperations
        [putRecord 1 0 ''a'' ''1'', zeroOperation, putRecord 2 3 ''a'' ''2'']) =
     Inr [convertToPorcupineOperations [zeroOperation],
          convertToPorcupineOperations [putRecord 1 0 ''a'' ''1'', putRecord 2 3 ''a'' ''2'']]"
proof -
  let ?h = "convertToPorcupineOperations
        [putRecord 1 0 ''a'' ''1'', zeroOperation, putRecord 2 3 ''a'' ''2'']"
  have m: "\<forall>op \<in> set ?h. inputIsMap op" by (rule convert_inputIsMap)
  have v: "visitOrder ?h [''__unknown__'', ''a'']"
    by (auto simp: visitOrder_def rangeOrder_def convertToPorcupineOperations_def putRecord_def
        zeroOperation_def bucketKey_def mapIndex_def Let_def)
  from partitionByKey_disjoint_cover [OF m v]
  have "partitionByKey [''__unknown__'', ''a''] ?h =
      Inr (map (\<lambda>k. filter (\<lambda>op. keyOf op = k) ?h) [''__unknown__'', ''a''])"
    by blast
  also have "map (\<lambda>k. filter (\<lambda>op. keyOf op = k) ?h) [''__unknown__'', ''a''] =
      [convertToPorcupineOperations [zeroOperation],
       convertToPorcupineOperations [putRecord 1 0 ''a'' ''1'', putRecord 2 3 ''a'' ''2'']]"
    by (simp add: convertToPorcupineOperations_def putRecord_def zeroOperation_def keyOf_def
        bucketKey_def mapIndex_def)
  finally show ?thesis using m v by (simp add: list_all_iff)
qed

subsection \<open>Loading\<close>

lemma decodeInt64_fits: "decodeInt64 v cur \<noteq> None \<longleftrightarrow> int64Literal v"
  by (cases "(v, cur)" rule: decodeInt64.cases) (simp_all add: int64Literal_def)

lemma decodeMap_fits: "decodeMap v cur \<noteq> None \<longleftrightarrow> mapFits v"
  by (cases "(v, cur)" rule: decodeMap.cases) (simp_all add: mapFits_def)

lemma decodeField_fits: "decodeField member op \<noteq> None \<longleftrightarrow> memberFits member"
  using decodeInt64_fits decodeMap_fits
  by (simp add: decodeField_def memberFits_def Let_def)

lemma decodeFields_fits: "decodeFields ms op \<noteq> None \<longleftrightarrow> list_all memberFits ms"
proof (induction ms arbitrary: op)
  case Nil
  then show ?case by simp
next
  case (Cons member ms)
  show ?case
  proof (cases "decodeField member op")
    case None
    with decodeField_fits [of member op] show ?thesis by simp
  next
    case (Some op')
    with decodeField_fits [of member op] Cons.IH [of op'] show ?thesis by simp
  qed
qed

lemma decodeOperation_fits: "decodeOperation v \<noteq> None \<longleftrightarrow> recordFits v"
  using decodeFields_fits [of _ zeroOperation]
  by (cases v rule: decodeOperation.cases) (simp_all add: recordFits_def)

lemma decodeAll_fits: "decodeAll vs \<noteq> None \<longleftrightarrow> list_all recordFits vs"
proof (induction vs)
  case Nil
  then show ?case by simp
next
  case (Cons v vs)
  with decodeOperation_fits [of v] show ?case
    by (cases "decodeOperation v"; cases "decodeAll vs") simp_all
qed

lemma unmarshal_fits: "unmarshal data \<noteq> None \<longleftrightarrow> contentFits data"
  using decodeAll_fits
  by (cases data rule: unmarshal.cases) (simp_all add: contentFits_def)

lemma loadHistory_error:
  "(\<exists>err. loadHistory ue fs path = Inl err) \<longleftrightarrow>
   (case fs path of Inl e \<Rightarrow> True | Inr data \<Rightarrow> \<not> contentFits data)"
  using unmarshal_fits [of "projr (fs path)"]
  by (cases "fs path"; cases "unmarshal (projr (fs path))") (simp_all add: loadHistory_def)

lemma input_members_numbers:
  "memberFits (''input'', JObject inp) \<longleftrightarrow> list_all (\<lambda>member. numbersFit (snd member)) inp"
  by (simp add: memberFits_def mapFits_def toLowerASCII_def)

lemma input_key_not_required:
  "memberFits (''input'', JObject inp) \<Longrightarrow>
   memberFits (''input'', JObject (filter (\<lambda>member. fst member \<noteq> ''key'') inp))"
  by (simp add: input_members_numbers list_all_iff)

lemma float64Bound_below: "float64Bound \<le> 10 ^ 999"
proof -
  have "(0::int) \<le> 2 ^ 970" by (rule zero_le_power) simp
  then have "float64Bound \<le> (2::int) ^ 1024"
    unfolding float64Bound_def
    by (rule diff_left_mono [of 0 "2 ^ 970" "2 ^ 1024", simplified diff_zero])
  also have "(2::int) ^ 1024 \<le> 2 ^ (3 * 999)"
    by (rule power_increasing) simp_all
  also have "(2::int) ^ (3 * 999) = (2 ^ 3) ^ 999"
    by (rule power_mult)
  also have "(2::int) ^ 3 = 8"
    by simp
  also have "(8::int) ^ 999 \<le> 10 ^ 999"
    by (rule power_mono) simp_all
  finally show ?thesis .
qed

lemma overflow_number: "\<not> fitsFloat64 (JFrac 1 999)"
proof
  assume "fitsFloat64 (JFrac 1 999)"
  then have "(10::int) ^ 999 < float64Bound"
    by (simp del: power_numeral)
  with leD [OF float64Bound_below] show False
    by blast
qed

lemma overflow_refused: "\<not> contentFits (JSON (JArray [overflowGet]))"
  by (simp add: contentFits_def recordFits_def memberFits_def mapFits_def overflowGet_def
      toLowerASCII_def int64Literal_def inInt64_def overflow_number del: fitsFloat64.simps)

lemma ProcessHistory_engine:
  assumes "loadHistory (unmarshalError sy) fs path = Inr ops" and "ops \<noteq> []"
  shows "fst (ProcessHistory pal sy fs path) =
           [Stdout (newline @ Colorize pal (utf8 [0xF0, 0x9F, 0xA7, 0xAA] @ '' Processing '' @
                      Base sy path) (ColorCyan pal) @ newline),
            EngineCalled (convertToPorcupineOperations ops)] @
           fst (generateVisualization pal sy path
                  (snd (CheckOperationsVerbose sy (convertToPorcupineOperations ops)))) @
           printResults pal (fst (CheckOperationsVerbose sy (convertToPorcupineOperations ops)))
             (length ops)
             (calculateMaxPartialLength
                (snd (CheckOperationsVerbose sy (convertToPorcupineOperations ops))))"
    and "snd (ProcessHistory pal sy fs path) =
           \<lparr>Path = path,
            HTMLPath = snd (generateVisualization pal sy path
                              (snd (CheckOperationsVerbose sy (convertToPorcupineOperations ops)))),
            IsLinearizable = (fst (CheckOperationsVerbose sy (convertToPorcupineOperations ops)) = Ok),
            TotalOps = length ops,
            MaxPartialLen = calculateMaxPartialLength
                (snd (CheckOperationsVerbose sy (convertToPorcupineOperations ops))),
            Result = fst (CheckOperationsVerbose sy (convertToPorcupineOperations ops))\<rparr>"
  using assms
  by (simp_all add: ProcessHistory_def Let_def split_beta convertToPorcupineOperations_def)

text \<open>
  C3, as the claim states it, fails on a trace file of one record whose input has no
  \<open>key\<close>: the file loads, and the record goes to the engine.
\<close>

theorem loadHistory_keyless_counterexample:
  "loadHistory (unmarshalError undecidedSystem) keylessFile ''history.json'' =
     Inr [\<lparr>ClientID = 1, Input = [(''type'', JString ''Get'')], Call = 0,
           Output = [(''status'', JString ''ok'')], ReturnTime = 1\<rparr>] \<and>
   \<not> inputMatchesSchema [(''type'', JString ''Get'')] \<and>
   EngineCalled (convertToPorcupineOperations
       [\<lparr>ClientID = 1, Input = [(''type'', JString ''Get'')], Call = 0,
         Output = [(''status'', JString ''ok'')], ReturnTime = 1\<rparr>])
     \<in> set (fst (ProcessHistory plainPalette undecidedSystem keylessFile ''history.json''))"
proof -
  have l: "loadHistory (unmarshalError undecidedSystem) keylessFile ''history.json'' =
     Inr [\<lparr>ClientID = 1, Input = [(''type'', JString ''Get'')], Call = 0,
           Output = [(''status'', JString ''ok'')], ReturnTime = 1\<rparr>]"
    by (simp add: loadHistory_def keylessFile_def keylessGet_def decodeField_def toLowerASCII_def
        zeroOperation_def inInt64_def)
  have s: "\<not> inputMatchesSchema [(''type'', JString ''Get'')]"
    by (simp add: inputMatchesSchema_def mapIndex_def)
  from l s show ?thesis by (simp add: ProcessHistory_engine(1) [OF l])
qed

text \<open>
  C3, amended. \<open>loadHistory\<close> returns an error exactly when the file cannot be read or
  its content does not decode into a list of records: the scanner refuses it, or it is
  neither \<open>null\<close> nor an array whose elements are \<open>null\<close> or objects in which
  \<open>client_id\<close>, \<open>call\<close> and \<open>return_time\<close> are \<open>null\<close> or integer literals in the range
  of \<open>int64\<close> and \<open>input\<close> and \<open>output\<close> are \<open>null\<close> or objects whose numbers all fit
  a \<open>float64\<close>. Nothing else is asked of the members of \<open>input\<close>: none is required, an
  input that fits still fits without its \<open>key\<close>, and every history that loads with at
  least one record is handed to the engine.
\<close>

theorem loadHistory_error_iff:
  "((\<exists>err. loadHistory (unmarshalError sy) fs path = Inl err) \<longleftrightarrow>
      (case fs path of Inl e \<Rightarrow> True | Inr data \<Rightarrow> \<not> contentFits data)) \<and>
   (memberFits (''input'', JObject inp) \<longleftrightarrow>
      list_all (\<lambda>member. numbersFit (snd member)) inp) \<and>
   (memberFits (''input'', JObject inp) \<longrightarrow>
      memberFits (''input'', JObject (filter (\<lambda>member. fst member \<noteq> ''key'') inp))) \<and>
   (loadHistory (unmarshalError sy) fs path = Inr ops \<and> ops \<noteq> [] \<longrightarrow>
      EngineCalled (convertToPorcupineOperations ops) \<in> set (fst (ProcessHistory pal sy fs path)))"
  using loadHistory_error [of "unmarshalError sy" fs path] input_members_numbers [of inp]
    input_key_not_required [of inp] ProcessHistory_engine(1) [of sy fs path ops pal]
  by simp

theorem loadHistory_error_iff_witness:
  "loadHistory (unmarshalError undecidedSystem) keylessFile ''h.json'' =
     Inr [zeroOperation\<lparr>ClientID := 1, Input := [(''type'', JString ''Get'')],
                        Output := [(''status'', JString ''ok'')], ReturnTime := 1\<rparr>] \<and>
   contentFits (JSON (JArray [keylessGet])) \<and>
   EngineCalled (convertToPorcupineOperations
       [zeroOperation\<lparr>ClientID := 1, Input := [(''type'', JString ''Get'')],
                       Output := [(''status'', JString ''ok'')], ReturnTime := 1\<rparr>])
     \<in> set (fst (ProcessHistory plainPalette undecidedSystem keylessFile ''h.json'')) \<and>
   memberFits (''input'', JObject [(''type'', JString ''Get''), (''key'', JString ''x'')]) \<and>
   memberFits (''input'', JObject [(''type'', JString ''Get'')]) \<and>
   \<not> contentFits (JSON (JArray [overflowGet])) \<and>
   (\<exists>err. loadHistory (unmarshalError undecidedSystem) overflowFile ''h.json'' = Inl err)"
proof -
  let ?op = "zeroOperation\<lparr>ClientID := 1, Input := [(''type'', JString ''Get'')],
     Output := [(''status'', JString ''ok'')], ReturnTime := 1\<rparr>"
  let ?inp = "[(''type'', JString ''Get''), (''key'', JString ''x'')]"
  have l: "loadHistory (unmarshalError undecidedSystem) keylessFile ''h.json'' = Inr [?op]"
    by (simp add: loadHistory_def keylessFile_def keylessGet_def decodeField_def toLowerASCII_def
        zeroOperation_def inInt64_def)
  note t = loadHistory_error_iff [of undecidedSystem keylessFile "''h.json''" ?inp "[?op]"
      plainPalette]
  note u = loadHistory_error_iff [of undecidedSystem overflowFile "''h.json''" ?inp "[?op]"
      plainPalette]
  from t l have 1: "contentFits (JSON (JArray [keylessGet]))"
    by (simp add: keylessFile_def)
  from t l have 2: "EngineCalled (convertToPorcupineOperations [?op])
     \<in> set (fst (ProcessHistory plainPalette undecidedSystem keylessFile ''h.json''))"
    by simp
  from t have 3: "memberFits (''input'', JObject ?inp)"
    by simp
  with t have 4: "memberFits (''input'', JObject [(''type'', JString ''Get'')])"
    by simp
  from u overflow_refused
  have 5: "\<exists>err. loadHistory (unmarshalError undecidedSystem) overflowFile ''h.json'' = Inl err"
    by (simp add: overflowFile_def)
  from l 1 2 3 4 5 overflow_refused show ?thesis by blast
qed

subsection \<open>The empty history\<close>

text \<open>
  C9. When the history file loads as an empty sequence, \<open>ProcessHistory\<close> returns a
  result with \<open>IsLinearizable\<close> true and \<open>TotalOps\<close> 0, the engine is not called, and the
  outcome is the same whatever the engine is.
\<close>

theorem ProcessHistory_empty:
  assumes "loadHistory (unmarshalError sy) fs path = Inr []"
  shows "snd (ProcessHistory pal sy fs path) =
           \<lparr>Path = path, HTMLPath = [], IsLinearizable = True, TotalOps = 0, MaxPartialLen = 0,
            Result = []\<rparr> \<and>
         (\<forall>history. EngineCalled history \<notin> set (fst (ProcessHistory pal sy fs path))) \<and>
         ProcessHistory pal (sy\<lparr>CheckOperationsVerbose := engine\<rparr>) fs path =
           ProcessHistory pal sy fs path"
  using assms by (simp add: ProcessHistory_def Let_def)

theorem ProcessHistory_empty_witness:
  "loadHistory (unmarshalError undecidedSystem) emptyFile ''h.json'' = Inr [] \<and>
   IsLinearizable (snd (ProcessHistory plainPalette undecidedSystem emptyFile ''h.json'')) \<and>
   TotalOps (snd (ProcessHistory plainPalette undecidedSystem emptyFile ''h.json'')) = 0"
proof -
  have l: "loadHistory (unmarshalError undecidedSystem) emptyFile ''h.json'' = Inr []"
    by (simp add: loadHistory_def emptyFile_def)
  from ProcessHistory_empty [OF l, of plainPalette] l show ?thesis by simp
qed

subsection \<open>Merging\<close>

lemma mset_insertBehind: "mset (insertBehind lt x ys) = add_mset x (mset ys)"
  by (induction ys) simp_all

lemma set_insertBehind: "set (insertBehind lt x ys) = insert x (set ys)"
  by (induction ys) auto

lemma sorted_insertBehind:
  "sorted (map Call ys) \<Longrightarrow> sorted (map Call (insertBehind callLess x ys))"
  by (induction ys) (auto simp: set_insertBehind callLess_def)

lemma mset_tieReversingSort: "mset (tieReversingSort lt xs) = mset xs"
  by (induction xs) (simp_all add: tieReversingSort_def mset_insertBehind)

lemma sorted_tieReversingSort: "sorted (map Call (tieReversingSort callLess xs))"
  by (induction xs) (simp_all add: tieReversingSort_def sorted_insertBehind)

lemma tieReversingSort_contract: "sortSliceContract tieReversingSort"
  by (simp add: sortSliceContract_def mset_tieReversingSort sorted_tieReversingSort)

lemma loadAll_concat:
  "list_all2 (\<lambda>path ops. loadHistory ue fs path = Inr ops) paths opss \<Longrightarrow>
   loadAll ue fs paths allOps = Inr (allOps @ concat opss)"
  by (induction paths opss arbitrary: allOps rule: list_all2_induct) simp_all


lemma same_calls_as_stable:
  assumes "mset ys = mset xs" and "sorted (map Call ys)"
  shows "map Call ys = map Call (sort_key Call xs)"
proof -
  from assms have "sort (map Call xs) = map Call ys"
    by (intro properties_for_sort) simp_all
  moreover have "sort (map Call xs) = map Call (sort_key Call xs)"
    by (intro properties_for_sort) simp_all
  ultimately show ?thesis by simp
qed

lemma tieReversingSort_records:
  "tieReversingSort callLess (tiedRecords @ [earlierRecord]) = earlierRecord # rev tiedRecords"
  by (simp add: tieReversingSort_def tiedRecords_def earlierRecord_def putRecord_def callLess_def)

lemma load_a: "loadHistory ue twoFiles ''a.json'' = Inr tiedRecords"
  by (simp add: loadHistory_def twoFiles_def marshalIndent_def marshalOperation_def marshalMap_def
      tiedRecords_def putRecord_def decodeField_def toLowerASCII_def mapIndex_def
      zeroOperation_def inInt64_def)

lemma load_b: "loadHistory ue twoFiles ''b.json'' = Inr [earlierRecord]"
  by (simp add: loadHistory_def twoFiles_def marshalIndent_def marshalOperation_def marshalMap_def
      earlierRecord_def putRecord_def decodeField_def toLowerASCII_def mapIndex_def
      zeroOperation_def inInt64_def)

lemma merge_two_files:
  "MergeHistories undecidedSystem twoFiles [''a.json'', ''b.json''] =
     Inr (twoFiles(''./merged-history.json'' := Inr (marshalIndent (earlierRecord # rev tiedRecords))),
          [FileWritten ''./merged-history.json''], Inr ''./merged-history.json'')"
  by (simp add: MergeHistories_def Let_def load_a load_b undecidedSystem_def
      tieReversingSort_records)

text \<open>
  C2, as the claim states it, fails for a \<open>sort.Slice\<close> that keeps its promise: on the
  two trace files above the merged file is sorted by \<open>call\<close>, but the twelve records of
  the same \<open>call\<close> are not in their order in the concatenation, which is where the stable
  sort of the specification leaves them.
\<close>

theorem MergeHistories_stable_counterexample:
  "sortSliceContract (sortSlice undecidedSystem) \<and>
   loadHistory (unmarshalError undecidedSystem) twoFiles ''a.json'' = Inr tiedRecords \<and>
   loadHistory (unmarshalError undecidedSystem) twoFiles ''b.json'' = Inr [earlierRecord] \<and>
   MergeHistories undecidedSystem twoFiles [''a.json'', ''b.json''] =
     Inr (twoFiles(''./merged-history.json'' := Inr (marshalIndent (earlierRecord # rev tiedRecords))),
          [FileWritten ''./merged-history.json''], Inr ''./merged-history.json'') \<and>
   specMerge [tiedRecords, [earlierRecord]] = earlierRecord # tiedRecords \<and>
   earlierRecord # rev tiedRecords \<noteq> earlierRecord # tiedRecords"
proof -
  have c: "sortSliceContract (sortSlice undecidedSystem)"
    by (simp add: undecidedSystem_def tieReversingSort_contract)
  have s: "specMerge [tiedRecords, [earlierRecord]] = earlierRecord # tiedRecords"
    by (simp add: specMerge_def tiedRecords_def earlierRecord_def putRecord_def)
  have n: "earlierRecord # rev tiedRecords \<noteq> earlierRecord # tiedRecords"
    by (simp add: tiedRecords_def putRecord_def)
  from c s n load_a load_b merge_two_files show ?thesis by blast
qed

text \<open>
  C2, amended. For every non-empty list of files that all load, with a \<open>sort.Slice\<close> that
  keeps its promise and a merged file that can be written, \<open>MergeHistories\<close> writes the
  records of the concatenation of the loaded sequences, taken in the order of the files,
  sorted by ascending \<open>call\<close>: the merged sequence has the records of the concatenation,
  each as often, it is in ascending order of \<open>call\<close>, and its sequence of \<open>call\<close> values
  is that of the stable sort. The order among records of the same \<open>call\<close> is the one
  \<open>sort.Slice\<close> leaves.
\<close>

theorem MergeHistories_sorted_permutation:
  assumes "list_all2 (\<lambda>path ops. loadHistory (unmarshalError sy) fs path = Inr ops)
             historyPaths opss"
    and "historyPaths \<noteq> []"
    and "sortSliceContract (sortSlice sy)"
    and "WriteFile sy (Join sy (Dir sy (hd historyPaths)) ''merged-history.json'') = None"
  shows "\<exists>merged mergedPath.
           mergedPath = Join sy (Dir sy (hd historyPaths)) ''merged-history.json'' \<and>
           MergeHistories sy fs historyPaths =
             Inr (fs(mergedPath := Inr (marshalIndent merged)), [FileWritten mergedPath],
                  Inr mergedPath) \<and>
           merged = sortSlice sy callLess (concat opss) \<and>
           mset merged = mset (concat opss) \<and>
           sorted (map Call merged) \<and>
           map Call merged = map Call (specMerge opss)"
proof -
  let ?merged = "sortSlice sy callLess (concat opss)"
  from assms(2) obtain first rest where p: "historyPaths = first # rest"
    by (cases historyPaths) auto
  from assms(1) have l: "loadAll (unmarshalError sy) fs historyPaths [] = Inr (concat opss)"
    using loadAll_concat [of "unmarshalError sy" fs historyPaths opss "[]"] by simp
  from assms(3) have m: "mset ?merged = mset (concat opss)" and s: "sorted (map Call ?merged)"
    by (simp_all add: sortSliceContract_def)
  from m s have k: "map Call ?merged = map Call (specMerge opss)"
    unfolding specMerge_def by (rule same_calls_as_stable)
  from l p assms(4) have
    "MergeHistories sy fs historyPaths =
       Inr (fs(Join sy (Dir sy (hd historyPaths)) ''merged-history.json'' :=
                 Inr (marshalIndent ?merged)),
            [FileWritten (Join sy (Dir sy (hd historyPaths)) ''merged-history.json'')],
            Inr (Join sy (Dir sy (hd historyPaths)) ''merged-history.json''))"
    by (simp add: MergeHistories_def Let_def)
  with m s k show ?thesis by blast
qed

theorem MergeHistories_sorted_permutation_witness:
  "list_all2 (\<lambda>path ops. loadHistory (unmarshalError undecidedSystem) twoFiles path = Inr ops)
     [''b.json'', ''a.json''] [[earlierRecord], tiedRecords] \<and>
   sortSliceContract (sortSlice undecidedSystem) \<and>
   WriteFile undecidedSystem
     (Join undecidedSystem (Dir undecidedSystem (hd [''b.json'', ''a.json''])) ''merged-history.json'') = None \<and>
   (\<exists>merged. MergeHistories undecidedSystem twoFiles [''b.json'', ''a.json''] =
        Inr (twoFiles(''./merged-history.json'' := Inr (marshalIndent merged)),
             [FileWritten ''./merged-history.json''], Inr ''./merged-history.json'') \<and>
      mset merged = mset (earlierRecord # tiedRecords) \<and> sorted (map Call merged))"
proof -
  have a: "list_all2 (\<lambda>path ops. loadHistory (unmarshalError undecidedSystem) twoFiles path = Inr ops)
     [''b.json'', ''a.json''] [[earlierRecord], tiedRecords]"
    by (simp add: load_a load_b)
  have c: "sortSliceContract (sortSlice undecidedSystem)"
    by (simp add: undecidedSystem_def tieReversingSort_contract)
  have w: "WriteFile undecidedSystem
     (Join undecidedSystem (Dir undecidedSystem (hd [''b.json'', ''a.json''])) ''merged-history.json'') = None"
    by (simp add: undecidedSystem_def)
  have j: "Join undecidedSystem (Dir undecidedSystem (hd [''b.json'', ''a.json''])) ''merged-history.json''
     = ''./merged-history.json''"
    by (simp add: undecidedSystem_def)
  from MergeHistories_sorted_permutation [OF a _ c w] j
  have "\<exists>merged. MergeHistories undecidedSystem twoFiles [''b.json'', ''a.json''] =
        Inr (twoFiles(''./merged-history.json'' := Inr (marshalIndent merged)),
             [FileWritten ''./merged-history.json''], Inr ''./merged-history.json'') \<and>
      mset merged = mset (earlierRecord # tiedRecords) \<and> sorted (map Call merged)"
    by auto
  with a c w show ?thesis by blast
qed

subsection \<open>Reports\<close>








lemma printResults_headline:
  "result \<noteq> Ok \<Longrightarrow>
   hd (printResults pal result totalOps maxPartialLength) = Stdout (notLinearizableLine pal)"
  by (simp add: printResults_def)










end
